theory Spec2Isabelle
  imports Main "HOL-Library.Word"
begin

unbundle bit_operations_syntax

section \<open>Package messagebox (src/messagebox/message_box.go)\<close>

subsection \<open>Run-time failures\<close>

text \<open>
  Go panics are values of the model: indexing or slicing out of range, an integer
  remainder by zero, and a field access through a nil pointer.
\<close>

datatype error = IndexOutOfRange | SliceOutOfRange | DivideByZero | NilPointer

subsection \<open>Buttons and box types\<close>

text \<open>
  \<^verbatim>\<open>type Button int\<close> and \<^verbatim>\<open>type Type int\<close>. The constants are
  \<^verbatim>\<open>1 << (iota + 1)\<close> for iota = 0 .. 4. Only bitwise conjunction and equality are
  applied to these values, so the integers are kept unbounded: \<open>AND\<close> on \<open>int\<close> is
  two's complement conjunction at every width.
\<close>

type_synonym Button = int
type_synonym Type = int

definition MB_OK :: Button where "MB_OK = 2"
definition MB_CANCEL :: Button where "MB_CANCEL = 4"
definition MB_YES :: Button where "MB_YES = 8"
definition MB_NO :: Button where "MB_NO = 16"
definition MB_ALL :: Button where "MB_ALL = 32"

definition OK :: Type where "OK = MB_OK"
definition OK_CANCEL :: Type where "OK_CANCEL = MB_OK OR MB_CANCEL"
definition YES_NO :: Type where "YES_NO = MB_YES OR MB_NO"
definition YES_NO_ALL :: Type where "YES_NO_ALL = MB_YES OR MB_NO OR MB_ALL"

definition buttonFg :: string where "buttonFg = ''0''"
definition buttonBg :: string where "buttonBg = ''244''"
definition buttonSelBg :: string where "buttonSelBg = ''7''"
definition buttonHotkey :: string where "buttonHotkey = ''196''"
definition border :: string where "border = ''63''"

definition defaultViewPortWidth :: int where "defaultViewPortWidth = 40"

text \<open>The map \<^verbatim>\<open>buttonText\<close>; a missing key reads as the empty string.\<close>

definition buttonText :: "Button \<Rightarrow> string" where
  "buttonText b =
     (if b = MB_OK then ''&Ok''
      else if b = MB_CANCEL then ''&Cancel''
      else if b = MB_YES then ''&Yes''
      else if b = MB_NO then ''&No''
      else if b = MB_ALL then ''&All''
      else [])"

subsection \<open>Library functions of Go used by the package\<close>

text \<open>\<^verbatim>\<open>slices.Index\<close>: the first index of the value, or -1.\<close>

fun slices_Index :: "'a list \<Rightarrow> 'a \<Rightarrow> int" where
  "slices_Index [] v = -1"
| "slices_Index (x # xs) v =
     (if x = v then 0 else (let i = slices_Index xs v in if i = -1 then -1 else i + 1))"

text \<open>\<^verbatim>\<open>slices.Contains\<close>.\<close>

definition slices_Contains :: "'a list \<Rightarrow> 'a \<Rightarrow> bool" where
  "slices_Contains xs v = (0 \<le> slices_Index xs v)"

text \<open>
  \<^verbatim>\<open>strings.Index(text, "&")\<close>: the package only searches for the one-byte string
  \<^verbatim>\<open>"&"\<close>, so the separator is a byte.
\<close>

definition strings_Index :: "string \<Rightarrow> char \<Rightarrow> int" where
  "strings_Index text c = slices_Index text c"

text \<open>\<^verbatim>\<open>strings.ToLower\<close> on the ASCII letters.\<close>

definition toLowerChar :: "char \<Rightarrow> char" where
  "toLowerChar c =
     (let n = (of_char c :: nat) in if 65 \<le> n \<and> n \<le> 90 then char_of (n + 32) else c)"

definition strings_ToLower :: "string \<Rightarrow> string" where
  "strings_ToLower s = map toLowerChar s"

text \<open>\<^verbatim>\<open>strings.Join\<close> and \<^verbatim>\<open>strings.Count(s, "\n")\<close>.\<close>

fun strings_Join :: "string list \<Rightarrow> string \<Rightarrow> string" where
  "strings_Join [] sep = []"
| "strings_Join [s] sep = s"
| "strings_Join (s # t # ss) sep = s @ sep @ strings_Join (t # ss) sep"

definition countNewlines :: "string \<Rightarrow> int" where
  "countNewlines s = int (length (filter (\<lambda>c. c = CHR 0x0A) s))"

text \<open>
  Go's remainder truncates towards zero and panics on a zero divisor.
\<close>

definition go_rem :: "int \<Rightarrow> int \<Rightarrow> error + int" where
  "go_rem a b = (if b = 0 then Inl DivideByZero else Inr (sgn a * (\<bar>a\<bar> mod \<bar>b\<bar>)))"

definition len :: "'a list \<Rightarrow> int" where
  "len xs = int (length xs)"

text \<open>Indexing a slice or a string: a panic outside \<open>[0, len)\<close>.\<close>

definition index_at :: "'a list \<Rightarrow> int \<Rightarrow> error + 'a" where
  "index_at xs i = (if 0 \<le> i \<and> i < len xs then Inr (xs ! nat i) else Inl IndexOutOfRange)"

subsection \<open>Styles (the lipgloss attributes the package sets)\<close>

record Style =
  Foreground :: string
  Background :: string
  BorderForeground :: string
  NormalBorder :: bool
  Underline :: bool
  StyleWidth :: int
  AlignCenter :: bool

definition NewStyle :: Style where
  "NewStyle = \<lparr>Foreground = [], Background = [], BorderForeground = [],
     NormalBorder = False, Underline = False, StyleWidth = 0, AlignCenter = False\<rparr>"

record Styles =
  Border :: Style
  Button :: Style
  SelectedButton :: Style
  HotKey :: string

definition DefaultStyles :: Styles where
  "DefaultStyles =
     \<lparr>Border = NewStyle\<lparr>NormalBorder := True, BorderForeground := border\<rparr>,
      Button = NewStyle\<lparr>Foreground := buttonFg, Background := buttonBg\<rparr>,
      SelectedButton = NewStyle\<lparr>Foreground := buttonFg, Background := buttonSelBg\<rparr>,
      HotKey = buttonHotkey\<rparr>"

text \<open>
  The packages the message box calls and that are not part of the repository sources
  at hand (lipgloss rendering, runewidth, \<^verbatim>\<open>strings.TrimSpace\<close>, the viewport's
  view, and the overlay compositor \<^verbatim>\<open>PlaceOverlay\<close>) are parameters of the model:
  every theorem holds for all of them.
\<close>

record viewport =
  vpWidth :: int
  vpHeight :: int
  vpContent :: string

definition viewport_New :: "int \<Rightarrow> int \<Rightarrow> viewport" where
  "viewport_New w h = \<lparr>vpWidth = w, vpHeight = h, vpContent = []\<rparr>"

record Libs =
  lipgloss_Render :: "Style \<Rightarrow> string \<Rightarrow> string"
  runewidth_StringWidth :: "string \<Rightarrow> int"
  runewidth_Wrap :: "string \<Rightarrow> int \<Rightarrow> string"
  strings_TrimSpace :: "string \<Rightarrow> string"
  viewport_View :: "viewport \<Rightarrow> string"
  PlaceOverlay :: "int \<Rightarrow> int \<Rightarrow> string \<Rightarrow> string \<Rightarrow> string"

subsection \<open>Options, box and model\<close>

record options =
  xpos :: int
  ypos :: int
  width :: int
  style :: "Styles option"

type_synonym optionFunc = "options \<Rightarrow> options"

definition options_zero :: options where
  "options_zero = \<lparr>xpos = 0, ypos = 0, width = 0, style = None\<rparr>"

definition WithPosition :: "int \<Rightarrow> int \<Rightarrow> optionFunc" where
  "WithPosition x y = (\<lambda>os. os\<lparr>xpos := x, ypos := y\<rparr>)"

definition WithWidth :: "int \<Rightarrow> optionFunc" where
  "WithWidth w = (\<lambda>os. os\<lparr>width := w\<rparr>)"

definition WithStyle :: "Styles \<Rightarrow> optionFunc" where
  "WithStyle s = (\<lambda>os. os\<lparr>style := Some s\<rparr>)"

record box =
  message :: string
  buttons :: "Button list"
  selectedButton :: int

text \<open>
  \<^verbatim>\<open>Model.box\<close> is a pointer, nil when no message box is showing: an option.
\<close>

record Model =
  viewport :: viewport
  box :: "box option"
  xpos :: int
  ypos :: int
  width :: int
  styles :: Styles


subsection \<open>Rendering a button and its key binding\<close>

text \<open>
  \<^verbatim>\<open>highlightChar\<close>: the byte after the first \<^verbatim>\<open>&\<close> of the button's text.
  For a value that is no key of \<^verbatim>\<open>buttonText\<close> the text is empty, the index is
  \<open>-1 + 1\<close>, and the read panics.
\<close>

definition highlightChar :: "Button \<Rightarrow> error + string" where
  "highlightChar b =
     (let text = buttonText b;
          highlight = strings_Index text CHR ''&''
      in case index_at text (highlight + 1) of
           Inl e \<Rightarrow> Inl e
         | Inr c \<Rightarrow> Inr [c])"

text \<open>
  \<^verbatim>\<open>keyBinding\<close>: the keys of the binding built by \<^verbatim>\<open>key.NewBinding(key.WithKeys(...))\<close>.
\<close>

definition keyBinding :: "Button \<Rightarrow> error + string list" where
  "keyBinding b =
     (case highlightChar b of
        Inl e \<Rightarrow> Inl e
      | Inr highlight \<Rightarrow>
          Inr ([strings_ToLower highlight]
               @ (if b AND (MB_CANCEL OR MB_NO) \<noteq> 0 then [''esc''] else [])))"

text \<open>
  \<^verbatim>\<open>Button.render\<close>. The three reads of \<^verbatim>\<open>text\<close> happen in the order
  \<^verbatim>\<open>text[highlight+1]\<close>, \<^verbatim>\<open>text[:highlight]\<close>, \<^verbatim>\<open>text[highlight+2:]\<close>; the last
  cannot fail once the first succeeded.
\<close>

definition render :: "Libs \<Rightarrow> Button \<Rightarrow> Styles \<Rightarrow> bool \<Rightarrow> error + string" where
  "render L b sty selected =
     (let text = buttonText b;
          highlight = strings_Index text CHR ''&''
      in case index_at text (highlight + 1) of
           Inl e \<Rightarrow> Inl e
         | Inr highlightedChar \<Rightarrow>
             if highlight < 0 then Inl SliceOutOfRange
             else
               let pre = take (nat highlight) text;
                   post = drop (nat (highlight + 2)) text;
                   buttonStyle = (if selected then SelectedButton sty else Button sty)
               in Inr (lipgloss_Render L buttonStyle ('' '' @ pre)
                       @ lipgloss_Render L
                           (buttonStyle\<lparr>Underline := True, Foreground := buttonHotkey\<rparr>)
                           [highlightedChar]
                       @ lipgloss_Render L buttonStyle (post @ '' '')))"

text \<open>
  \<^verbatim>\<open>renderButtons\<close>: the loop over \<^verbatim>\<open>m.box.buttons\<close> with its index, stopping at
  the first panic; \<^verbatim>\<open>m.box\<close> is dereferenced, so a nil box panics.
\<close>

fun renderEach :: "Libs \<Rightarrow> Styles \<Rightarrow> int \<Rightarrow> int \<Rightarrow> Button list \<Rightarrow> error + string list" where
  "renderEach L sty sel i [] = Inr []"
| "renderEach L sty sel i (b # bs) =
     (case render L b sty (i = sel) of
        Inl e \<Rightarrow> Inl e
      | Inr s \<Rightarrow>
          (case renderEach L sty sel (i + 1) bs of
             Inl e \<Rightarrow> Inl e
           | Inr ss \<Rightarrow> Inr (s # ss)))"

definition renderButtons :: "Libs \<Rightarrow> Model \<Rightarrow> error + string" where
  "renderButtons L m =
     (case box m of
        None \<Rightarrow> Inl NilPointer
      | Some bx \<Rightarrow>
          (case renderEach L (styles m) (selectedButton bx) 0 (buttons bx) of
             Inl e \<Rightarrow> Inl e
           | Inr bs \<Rightarrow> Inr (strings_Join bs '' '')))"

subsection \<open>New\<close>

text \<open>
  \<^verbatim>\<open>Model.New\<close>. The receiver is a value, so the result is a new model. The
  canonical display order is the order of the slice the loop ranges over.
\<close>

definition displayOrder :: "Button list" where
  "displayOrder = [MB_OK, MB_YES, MB_NO, MB_ALL, MB_CANCEL]"

definition New :: "Libs \<Rightarrow> Model \<Rightarrow> string \<Rightarrow> Type \<Rightarrow> optionFunc list \<Rightarrow> error + Model" where
  "New L m msg boxType opts =
     (let os = fold (\<lambda>opt os. opt os) opts options_zero;
          m1 = m\<lparr>xpos := options.xpos os, ypos := options.ypos os\<rparr>;
          m2 = m1\<lparr>styles := (case style os of None \<Rightarrow> DefaultStyles | Some s \<Rightarrow> s)\<rparr>;
          bs = filter (\<lambda>b. boxType AND b \<noteq> 0) displayOrder;
          sel = (if len bs = 1 then 0
                 else
                   let s1 = slices_Index bs MB_CANCEL;
                       s2 = (if s1 = -1 then slices_Index bs MB_NO else s1)
                   in if s2 = -1 then 0 else s2);
          bx = \<lparr>message = [], buttons = bs, selectedButton = sel\<rparr>;
          m3 = m2\<lparr>box := Some bx, width := defaultViewPortWidth\<rparr>
      in case renderButtons L m3 of
           Inl e \<Rightarrow> Inl e
         | Inr buttonBar \<Rightarrow>
             let buttonsWidth = runewidth_StringWidth L buttonBar + 2;
                 m4 = (if options.width os \<noteq> 0
                       then m3\<lparr>width := max buttonsWidth (options.width os)\<rparr> else m3);
                 wrapped = runewidth_Wrap L (strings_TrimSpace L msg) (width m4 - 2)
             in Inr (m4\<lparr>box := Some (bx\<lparr>message := wrapped\<rparr>),
                        viewport := viewport_New (width m4) (countNewlines wrapped + 3)\<rparr>))"

text \<open>
  The selection \<^verbatim>\<open>New\<close> computes from the button list, named for the proofs.
\<close>

definition initialSelection :: "Button list \<Rightarrow> int" where
  "initialSelection bs =
     (if len bs = 1 then 0
      else
        let s1 = slices_Index bs MB_CANCEL;
            s2 = (if s1 = -1 then slices_Index bs MB_NO else s1)
        in if s2 = -1 then 0 else s2)"


subsection \<open>Key messages\<close>

text \<open>
  \<^verbatim>\<open>tea.KeyMsg\<close> of bubbletea: the key types \<^verbatim>\<open>Update\<close> distinguishes, runes, and
  every other key under its name. \<^verbatim>\<open>KeyCtrlI\<close> is the tab key. \<^verbatim>\<open>Key.String\<close> gives
  the text \<^verbatim>\<open>key.Matches\<close> compares with the keys of a binding.
\<close>

datatype KeyType =
  KeyEsc | KeyCtrlI | KeyRight | KeyShiftTab | KeyLeft | KeySpace | KeyEnter
  | KeyRunes | KeyOther string

record Key =
  keyType :: KeyType
  Runes :: string
  Alt :: bool
  Paste :: bool

definition keyName :: "KeyType \<Rightarrow> string" where
  "keyName t =
     (case t of
        KeyEsc \<Rightarrow> ''esc'' | KeyCtrlI \<Rightarrow> ''tab'' | KeyRight \<Rightarrow> ''right''
      | KeyShiftTab \<Rightarrow> ''shift+tab'' | KeyLeft \<Rightarrow> ''left'' | KeySpace \<Rightarrow> '' ''
      | KeyEnter \<Rightarrow> ''enter'' | KeyRunes \<Rightarrow> [] | KeyOther n \<Rightarrow> n)"

definition keyString :: "Key \<Rightarrow> string" where
  "keyString k =
     (if Alt k then ''alt+'' else [])
     @ (if keyType k = KeyRunes
        then (if Paste k then ''['' else []) @ Runes k @ (if Paste k then '']'' else [])
        else keyName (keyType k))"

definition key_Matches :: "Key \<Rightarrow> string list \<Rightarrow> bool" where
  "key_Matches k keys = (keyString k \<in> set keys)"

text \<open>
  A message handed to \<^verbatim>\<open>Update\<close> is a key message or anything else. What a returned
  command yields when run is either a \<^verbatim>\<open>Button\<close> value or a value of the function
  type \<^verbatim>\<open>func() Button\<close>; the latter is kept as the function itself, whose call
  returns a button or panics. No command (\<^verbatim>\<open>nil\<close>) is \<open>None\<close>.
\<close>

datatype Msg = KeyMsg Key | OtherMsg

datatype Emitted = ButtonValue Button | ButtonFunc "unit \<Rightarrow> error + Button"

type_synonym Cmd = "Emitted option"


subsection \<open>Update\<close>

text \<open>
  The function literal \<^verbatim>\<open>buttonToReturn\<close> of the escape branch, as a function of the
  variable \<^verbatim>\<open>m\<close> it captures: it reads \<^verbatim>\<open>m.box.buttons\<close> when it is called.
\<close>

definition buttonToReturn :: "Model \<Rightarrow> unit \<Rightarrow> error + Button" where
  "buttonToReturn m = (\<lambda>_.
     case box m of
       None \<Rightarrow> Inl NilPointer
     | Some bx \<Rightarrow>
         Inr (if slices_Contains (buttons bx) MB_CANCEL then MB_CANCEL
              else if slices_Contains (buttons bx) MB_NO then MB_NO
              else MB_CANCEL))"

text \<open>
  The loop of the default branch: the first button of the list whose binding matches
  the key, a panic if a binding cannot be built before a match is found.
\<close>

fun matchBound :: "Key \<Rightarrow> Button list \<Rightarrow> error + Button option" where
  "matchBound k [] = Inr None"
| "matchBound k (b # bs) =
     (case keyBinding b of
        Inl e \<Rightarrow> Inl e
      | Inr keys \<Rightarrow> if key_Matches k keys then Inr (Some b) else matchBound k bs)"

text \<open>
  The two tab branches assign through the pointer \<^verbatim>\<open>m.box\<close>; the model returns the
  updated box in the returned model. Their sums are taken on unbounded integers: with
  a selection inside the list they stay below twice the length of the list, far from
  the range of Go's \<^verbatim>\<open>int\<close>.
\<close>

text \<open>
  \<^verbatim>\<open>Model.Update\<close> returns the model and a command. In the escape branch the command
  returns the identifier \<^verbatim>\<open>buttonToReturn\<close>, which names the function literal and is
  not called; the box has been set to nil before. In the space/enter branch the
  button is read before the box is dismissed.
\<close>

definition forwardTab :: "Model \<Rightarrow> box \<Rightarrow> error + (Model \<times> Cmd)" where
  "forwardTab m bx =
     (case go_rem (selectedButton bx + 1) (len (buttons bx)) of
        Inl e \<Rightarrow> Inl e
      | Inr s \<Rightarrow> Inr (m\<lparr>box := Some (bx\<lparr>selectedButton := s\<rparr>)\<rparr>, None))"

definition reverseTab :: "Model \<Rightarrow> box \<Rightarrow> error + (Model \<times> Cmd)" where
  "reverseTab m bx =
     (case go_rem (len (buttons bx) + selectedButton bx - 1) (len (buttons bx)) of
        Inl e \<Rightarrow> Inl e
      | Inr s \<Rightarrow> Inr (m\<lparr>box := Some (bx\<lparr>selectedButton := s\<rparr>)\<rparr>, None))"

definition confirm :: "Model \<Rightarrow> box \<Rightarrow> error + (Model \<times> Cmd)" where
  "confirm m bx =
     (case index_at (buttons bx) (selectedButton bx) of
        Inl e \<Rightarrow> Inl e
      | Inr selected \<Rightarrow> Inr (m\<lparr>box := None\<rparr>, Some (ButtonValue selected)))"

definition Update :: "Model \<Rightarrow> Msg \<Rightarrow> error + (Model \<times> Cmd)" where
  "Update m msg =
     (case box m of
        None \<Rightarrow> Inr (m, None)
      | Some bx \<Rightarrow>
          (case msg of
             OtherMsg \<Rightarrow> Inr (m, None)
           | KeyMsg k \<Rightarrow>
               (case keyType k of
                  KeyEsc \<Rightarrow>
                    (let m' = m\<lparr>box := None\<rparr>
                     in Inr (m', Some (ButtonFunc (buttonToReturn m'))))
                | KeyCtrlI \<Rightarrow> forwardTab m bx
                | KeyRight \<Rightarrow> forwardTab m bx
                | KeyShiftTab \<Rightarrow> reverseTab m bx
                | KeyLeft \<Rightarrow> reverseTab m bx
                | KeySpace \<Rightarrow> confirm m bx
                | KeyEnter \<Rightarrow> confirm m bx
                | _ \<Rightarrow>
                    (case matchBound k (buttons bx) of
                       Inl e \<Rightarrow> Inl e
                     | Inr None \<Rightarrow> Inr (m, None)
                     | Inr (Some b) \<Rightarrow> Inr (m\<lparr>box := None\<rparr>, Some (ButtonValue b))))))"

subsection \<open>Render and IsActive\<close>

definition IsActive :: "Model \<Rightarrow> bool" where
  "IsActive m = (box m \<noteq> None)"

text \<open>
  \<^verbatim>\<open>Model.Render\<close> has a value receiver and returns a string: the content when no
  box is showing, else the overlay of the bordered viewport on the content.
\<close>

definition Render :: "Libs \<Rightarrow> Model \<Rightarrow> string \<Rightarrow> error + string" where
  "Render L m content =
     (case box m of
        None \<Rightarrow> Inr content
      | Some bx \<Rightarrow>
          (let center = NewStyle\<lparr>StyleWidth := width m - 2, AlignCenter := True\<rparr>
           in case renderButtons L m of
                Inl e \<Rightarrow> Inl e
              | Inr bar \<Rightarrow>
                  let vp = (viewport m)\<lparr>vpContent :=
                              lipgloss_Render L center (message bx) @ [CHR 0x0A, CHR 0x0A]
                              @ lipgloss_Render L center bar\<rparr>
                  in Inr (PlaceOverlay L (xpos m) (ypos m)
                            (lipgloss_Render L (Border (styles m)) (viewport_View L vp))
                            content)))"


section \<open>Package xtable\<close>

text \<open>
  Of package xtable the sources at hand hold the tests (src/xtable/xtable_test.go) and
  the callers (the example program); the file that defines the table is not among
  them. The operations below are therefore written from the specification, and each
  says so. Where the tests fix a result, the definition agrees with the tests.
\<close>

subsection \<open>Data model\<close>

text \<open>
  Modelled from the spec: the types \<^verbatim>\<open>Column\<close>, \<^verbatim>\<open>Row\<close> and the table model are
  missing. A row carries its cells and an optional metadata value, of which only the
  64-bit identity hash is kept. The table keeps the fields the tests read
  (\<^verbatim>\<open>cols\<close>, \<^verbatim>\<open>rows\<close>, \<^verbatim>\<open>cursor\<close>) and the viewport fields of the specification.
\<close>

record Column =
  Title :: string
  Width :: int

record Row =
  Data :: "string list"
  Metadata :: "64 word option"

record TableModel =
  cols :: "Column list"
  rows :: "Row list"
  cursor :: int
  viewportTop :: int
  height :: int
  focused :: bool
  rowNumbersEnabled :: bool

subsection \<open>Width of the row-number column\<close>

text \<open>
  Modelled from the spec: \<^verbatim>\<open>rowNumberColWidth\<close> is missing. The specification gives the
  widths 1, 2 and 3 for row counts in [1,9], [10,99] and [100,999] and a step of one
  at 9 to 10 and at 99 to 100 rows, and \<^verbatim>\<open>TestPad\<close> expects width 1 for 8 rows, 2
  for 34 rows and 3 for 100 rows: the width is the number of decimal digits of the row
  count, counted here by repeated division by ten.
\<close>

fun decimalDigits :: "nat \<Rightarrow> nat" where
  "decimalDigits n = (if n < 10 then 1 else 1 + decimalDigits (n div 10))"

declare decimalDigits.simps [simp del]

definition rowNumberColWidth :: "Row list \<Rightarrow> int" where
  "rowNumberColWidth rs = int (decimalDigits (length rs))"

subsection \<open>Removing rows\<close>

text \<open>
  The slice without its element at position \<open>i\<close>.
\<close>

definition deleteAt :: "'a list \<Rightarrow> nat \<Rightarrow> 'a list" where
  "deleteAt xs i = take i xs @ drop (Suc i) xs"


text \<open>
  Modelled from the spec: \<^verbatim>\<open>RemoveSelectedRow\<close> is missing. It removes the row at
  the cursor; if rows remain the cursor becomes \<open>min(cursor, len(rows) - 1)\<close> and the
  result is true; the result is false when no row is left.
\<close>

definition RemoveSelectedRow :: "TableModel \<Rightarrow> TableModel \<times> bool" where
  "RemoveSelectedRow m =
     (let c = cursor m;
          rs = (if 0 \<le> c \<and> c < len (rows m) then deleteAt (rows m) (nat c) else rows m)
      in if rs = [] then (m\<lparr>rows := rs\<rparr>, False)
         else (m\<lparr>rows := rs, cursor := min c (len rs - 1)\<rparr>, True))"

subsection \<open>Find\<close>

text \<open>
  \<^verbatim>\<open>strings.Contains\<close>: the second string occurs in the first at some position.
\<close>

fun strings_Contains :: "string \<Rightarrow> string \<Rightarrow> bool" where
  "strings_Contains [] sub = (sub = [])"
| "strings_Contains (c # cs) sub =
     (take (length sub) (c # cs) = sub \<or> strings_Contains cs sub)"

definition rowMatches :: "string \<Rightarrow> Row \<Rightarrow> bool" where
  "rowMatches term r = list_ex (\<lambda>cell. strings_Contains cell term) (Data r)"

text \<open>
  Modelled from the spec: \<^verbatim>\<open>Find\<close> is missing. The rows are visited in increasing
  order of their index \<open>i\<close>; a row is tested only when \<open>i\<close> is strictly after
  \<open>fromIndex\<close>; the first row that matches ends the scan. On a match the cursor is
  set to that index and the result is true; otherwise the table is returned as it
  was and the result is false.
\<close>

fun scanRows :: "string \<Rightarrow> int \<Rightarrow> int \<Rightarrow> Row list \<Rightarrow> int option" where
  "scanRows term fromIndex i [] = None"
| "scanRows term fromIndex i (r # rs) =
     (if fromIndex < i \<and> rowMatches term r then Some i
      else scanRows term fromIndex (i + 1) rs)"

definition Find :: "TableModel \<Rightarrow> string \<Rightarrow> int \<Rightarrow> TableModel \<times> bool" where
  "Find m term fromIndex =
     (case scanRows term fromIndex 0 (rows m) of
        None \<Rightarrow> (m, False)
      | Some i \<Rightarrow> (m\<lparr>cursor := i\<rparr>, True))"


subsection \<open>SortBy\<close>

datatype SortOrder = SortAscending | SortDescending

datatype SortHint = SortUnspecified | SortString | SortNumeric

text \<open>
  Modelled from the spec: the comparators are missing. Strings compare
  lexicographically by code point, which for Go strings is the order of their bytes.
\<close>

fun stringLess :: "string \<Rightarrow> string \<Rightarrow> bool" where
  "stringLess [] [] = False"
| "stringLess [] (b # bs) = True"
| "stringLess (a # as) [] = False"
| "stringLess (a # as) (b # bs) =
     ((of_char a :: nat) < of_char b \<or> (a = b \<and> stringLess as bs))"

text \<open>
  Modelled from the spec: a numeric cell is parsed as a floating-point number, and a
  cell that does not parse sorts as negative infinity. The model reads plain decimal
  numerals (an optional sign, digits, an optional fraction) and keeps their exact
  value as a mantissa and a count of fraction digits; everything else does not parse.
  Rounding to double precision is monotone, so two cells whose doubles differ compare
  as their exact values do.
\<close>

definition isDigit :: "char \<Rightarrow> bool" where
  "isDigit c = (48 \<le> (of_char c :: nat) \<and> (of_char c :: nat) \<le> 57)"

definition digitsValue :: "string \<Rightarrow> nat" where
  "digitsValue ds = foldl (\<lambda>acc c. 10 * acc + (of_char c - 48)) 0 ds"

definition parseFloat :: "string \<Rightarrow> (int \<times> nat) option" where
  "parseFloat s =
     (let neg = (case s of [] \<Rightarrow> False | c # r \<Rightarrow> c = CHR ''-'');
          body = (case s of [] \<Rightarrow> []
                  | c # r \<Rightarrow> if c = CHR ''-'' \<or> c = CHR ''+'' then r else s);
          ip = takeWhile (\<lambda>c. c \<noteq> CHR ''.'') body;
          fp = (case dropWhile (\<lambda>c. c \<noteq> CHR ''.'') body of [] \<Rightarrow> [] | d # f \<Rightarrow> f)
      in if ip @ fp = [] \<or> \<not> list_all isDigit (ip @ fp) then None
         else Some ((if neg then -1 else 1) * int (digitsValue (ip @ fp)), length fp))"

fun numericLess :: "(int \<times> nat) option \<Rightarrow> (int \<times> nat) option \<Rightarrow> bool" where
  "numericLess None None = False"
| "numericLess None (Some y) = True"
| "numericLess (Some x) None = False"
| "numericLess (Some (a, e)) (Some (b, f)) = (a * 10 ^ f < b * 10 ^ e)"

text \<open>
  Modelled from the spec: the sort is stable. Each row is put before the first row of
  the sorted rest that does not come strictly before it, so equal keys keep their
  order, whatever the direction.
\<close>

fun insertStable :: "('a \<Rightarrow> 'a \<Rightarrow> bool) \<Rightarrow> 'a \<Rightarrow> 'a list \<Rightarrow> 'a list" where
  "insertStable lt x [] = [x]"
| "insertStable lt x (y # ys) =
     (if lt y x then y # insertStable lt x ys else x # y # ys)"

definition sortStable :: "('a \<Rightarrow> 'a \<Rightarrow> bool) \<Rightarrow> 'a list \<Rightarrow> 'a list" where
  "sortStable lt xs = foldr (insertStable lt) xs []"

definition cell :: "Row \<Rightarrow> nat \<Rightarrow> string" where
  "cell r c = Data r ! c"

text \<open>
  Modelled from the spec: \<^verbatim>\<open>SortBy\<close> is missing. With no hint the column is numeric when
  every cell of it parses, else it is compared as strings; the direction swaps the
  arguments of the comparator. The specification does not say what a column index
  outside a row's cells does: the model gives the panic of an index out of range there,
  and nothing below depends on it.
\<close>

definition SortBy :: "TableModel \<Rightarrow> int \<Rightarrow> SortOrder \<Rightarrow> SortHint \<Rightarrow> error + TableModel" where
  "SortBy m col direction hint =
     (if \<not> list_all (\<lambda>r. 0 \<le> col \<and> col < len (Data r)) (rows m) then Inl IndexOutOfRange
      else
        let c = nat col;
            numeric = (case hint of
                         SortNumeric \<Rightarrow> True
                       | SortString \<Rightarrow> False
                       | SortUnspecified \<Rightarrow>
                           list_all (\<lambda>r. parseFloat (cell r c) \<noteq> None) (rows m));
            lt = (if numeric
                    then (\<lambda>a b. numericLess (parseFloat (cell a c)) (parseFloat (cell b c)))
                    else (\<lambda>a b. stringLess (cell a c) (cell b c)));
            cmp = (case direction of
                     SortAscending \<Rightarrow> lt
                   | SortDescending \<Rightarrow> (\<lambda>a b. lt b a))
        in Inr (m\<lparr>rows := sortStable cmp (rows m)\<rparr>))"

section \<open>Values of the tests and of the example program\<close>

text \<open>
  The table of \<^verbatim>\<open>TestSortBy\<close>, the table of \<^verbatim>\<open>TestFind\<close>, and the table that
  \<^verbatim>\<open>TestRemoveRowsByIndex\<close> and \<^verbatim>\<open>TestRemoveSelectedRow\<close> build from four records,
  whose hashes are those \<^verbatim>\<open>TestGetRowByHash\<close> lists.
\<close>

definition newTable :: "Column list \<Rightarrow> Row list \<Rightarrow> TableModel" where
  "newTable cs rs = \<lparr>cols = cs, rows = rs, cursor = 0, viewportTop = 0, height = 5,
     focused = False, rowNumbersEnabled = False\<rparr>"

definition plainRow :: "string list \<Rightarrow> Row" where
  "plainRow ds = \<lparr>Data = ds, Metadata = None\<rparr>"

definition row_abcd :: Row where "row_abcd = plainRow [''abcdEfgh'', ''42'', ''0.72'']"
definition row_qwer :: Row where "row_qwer = plainRow [''qwerTYui'', ''123'', ''4.35'']"
definition row_zxcv :: Row where "row_zxcv = plainRow [''zxcvBNmj'', ''-4'', ''34.3'']"
definition row_plmn :: Row where "row_plmn = plainRow [''plmnPOiu'', ''4543534'', ''-23456.3'']"

definition sortTable :: TableModel where
  "sortTable = newTable
     [\<lparr>Title = ''Strings'', Width = 10\<rparr>, \<lparr>Title = ''Ints'', Width = 10\<rparr>,
      \<lparr>Title = ''Floats'', Width = 10\<rparr>]
     [row_abcd, row_qwer, row_zxcv, row_plmn]"

definition biscuits :: TableModel where
  "biscuits = newTable
     [\<lparr>Title = ''Name'', Width = 25\<rparr>, \<lparr>Title = ''Country of Origin'', Width = 16\<rparr>,
      \<lparr>Title = ''Dunk-able'', Width = 12\<rparr>]
     [plainRow [''Chocolate Digestives'', ''UK'', ''Yes''],
      plainRow [''Tim Tams'', ''Australia'', ''No''],
      plainRow [''Hobnobs'', ''UK'', ''Yes''],
      plainRow [''Peanut Butter Cookie'', ''USA'', ''Yes'']]"

definition packets :: TableModel where
  "packets = newTable
     [\<lparr>Title = ''Name'', Width = 0\<rparr>, \<lparr>Title = ''PacketSize'', Width = 0\<rparr>]
     [\<lparr>Data = [''Chocolate Digestives'', ''12''], Metadata = Some 0x40099b03ee546818\<rparr>,
      \<lparr>Data = [''Tim Tams'', ''8''], Metadata = Some 0x73c93c25d05d3b20\<rparr>,
      \<lparr>Data = [''Hobnobs'', ''10''], Metadata = Some 0x328fbeb31d4437e0\<rparr>,
      \<lparr>Data = [''Peanut Butter Cookie'', ''8''], Metadata = Some 0xca7bd7aa9e6497d4\<rparr>]"


text \<open>A table with a single row.\<close>

definition oneRow :: TableModel where
  "oneRow = newTable [\<lparr>Title = ''Name'', Width = 0\<rparr>] [plainRow [''Hobnobs'']]"

text \<open>
  For the message box: libraries that render text as it is, a model with no box, and
  the box the example program opens, \<^verbatim>\<open>YES_NO_ALL\<close> with the message
  \<^verbatim>\<open>Delete selected?\<close>, as \<^verbatim>\<open>New\<close> leaves it.
\<close>

definition plainLibs :: Libs where
  "plainLibs = \<lparr>lipgloss_Render = (\<lambda>st s. s), runewidth_StringWidth = len,
     runewidth_Wrap = (\<lambda>s w. s), strings_TrimSpace = (\<lambda>s. s),
     viewport_View = vpContent, PlaceOverlay = (\<lambda>x y fg bg. fg)\<rparr>"

definition noBox :: Model where
  "noBox = \<lparr>viewport = viewport_New 0 0, box = None, xpos = 0, ypos = 0, width = 0,
     styles = DefaultStyles\<rparr>"

definition deleteBox :: Model where
  "deleteBox = \<lparr>viewport = viewport_New 40 3,
     box = Some \<lparr>message = ''Delete selected?'', buttons = [MB_YES, MB_NO, MB_ALL],
                 selectedButton = 1\<rparr>,
     xpos = 3, ypos = 6, width = 40, styles = DefaultStyles\<rparr>"

text \<open>A box with no button, as \<^verbatim>\<open>New\<close> builds it from a type without a known bit.\<close>

definition emptyBox :: Model where
  "emptyBox = \<lparr>viewport = viewport_New 40 3,
     box = Some \<lparr>message = ''Nothing to choose'', buttons = [], selectedButton = 0\<rparr>,
     xpos = 0, ypos = 0, width = 40, styles = DefaultStyles\<rparr>"

definition keyOf :: "KeyType \<Rightarrow> Key" where
  "keyOf t = \<lparr>keyType = t, Runes = [], Alt = False, Paste = False\<rparr>"

section \<open>Properties of the message box\<close>

lemmas MB_defs = MB_OK_def MB_CANCEL_def MB_YES_def MB_NO_def MB_ALL_def

subsection \<open>Facts about the library functions\<close>

lemma slices_Index_ge: "-1 \<le> slices_Index xs v"
  by (induction xs) (auto simp: Let_def)

lemma slices_Index_neg_iff: "slices_Index xs v = -1 \<longleftrightarrow> v \<notin> set xs"
proof (induction xs)
  case Nil
  then show ?case by simp
next
  case (Cons x xs)
  have "-1 \<le> slices_Index xs v" by (rule slices_Index_ge)
  with Cons show ?case by (auto simp: Let_def)
qed

lemma slices_Index_found:
  "v \<in> set xs \<Longrightarrow>
     0 \<le> slices_Index xs v \<and> slices_Index xs v < len xs \<and> xs ! nat (slices_Index xs v) = v"
proof (induction xs)
  case Nil
  then show ?case by simp
next
  case (Cons x xs)
  show ?case
  proof (cases "x = v")
    case True
    then show ?thesis by (simp add: len_def)
  next
    case False
    with Cons.prems have v: "v \<in> set xs" by simp
    from Cons.IH [OF v] have ih: "0 \<le> slices_Index xs v" "slices_Index xs v < len xs"
      "xs ! nat (slices_Index xs v) = v" by simp_all
    from ih False show ?thesis
      by (simp add: Let_def len_def nat_add_distrib)
  qed
qed

subsection \<open>Render\<close>

text \<open>
  Claim C9. When no message box is active (\<^verbatim>\<open>IsActive\<close> is false), \<^verbatim>\<open>Render\<close> returns
  the base content it was given, unchanged, for every content and whatever the
  rendering libraries do. \<^verbatim>\<open>Render\<close> returns a string and nothing else, so there is no
  other effect.
\<close>

theorem Render_inactive:
  "\<not> IsActive m \<Longrightarrow> Render L m baseContent = Inr baseContent"
  by (simp add: IsActive_def Render_def)

theorem Render_inactive_witness:
  "\<not> IsActive noBox \<and> Render plainLibs noBox ''abc'' = Inr ''abc''"
proof -
  have h: "\<not> IsActive noBox" by (simp add: IsActive_def noBox_def)
  from Render_inactive [OF h, of plainLibs "''abc''"] h show ?thesis by simp
qed

subsection \<open>The confirm and escape keys\<close>

text \<open>
  Claim C8. On an active message box whose button list is not empty and whose
  \<^verbatim>\<open>selectedButton\<close> is an index of that list, a space or enter key makes \<^verbatim>\<open>Update\<close>
  return without a panic, emit the button stored at index \<^verbatim>\<open>selectedButton\<close>, and
  leave the model inactive.
\<close>

theorem Update_confirm:
  assumes "box m = Some bx"
    and "buttons bx \<noteq> []"
    and "0 \<le> selectedButton bx" and "selectedButton bx < len (buttons bx)"
    and "keyType k = KeySpace \<or> keyType k = KeyEnter"
  shows "\<exists>m'. Update m (KeyMsg k)
            = Inr (m', Some (ButtonValue (buttons bx ! nat (selectedButton bx))))
          \<and> \<not> IsActive m'"
  using assms by (auto simp: Update_def confirm_def index_at_def IsActive_def)

theorem Update_confirm_witness:
  "box deleteBox = Some \<lparr>message = ''Delete selected?'',
       buttons = [MB_YES, MB_NO, MB_ALL], selectedButton = 1\<rparr>
   \<and> (\<exists>m'. Update deleteBox (KeyMsg (keyOf KeyEnter)) = Inr (m', Some (ButtonValue MB_NO))
          \<and> \<not> IsActive m')"
proof -
  let ?bx = "\<lparr>message = ''Delete selected?'', buttons = [MB_YES, MB_NO, MB_ALL],
               selectedButton = 1\<rparr>"
  have h: "box deleteBox = Some ?bx" by (simp add: deleteBox_def)
  from Update_confirm [OF h, of "keyOf KeyEnter"] h show ?thesis
    by (simp add: len_def keyOf_def)
qed

text \<open>
  Claim C1. An escape key on an active box makes the model inactive; the message the
  returned command yields should be the button Cancel if it is among the buttons, else
  No, else Cancel. On the box of the example program (buttons Yes, No, All) the model
  does become inactive, but the command yields the function \<^verbatim>\<open>buttonToReturn\<close>
  itself and no \<^verbatim>\<open>Button\<close> value: not the button No the claim asks for. Called
  afterwards, that function reads the box that has just been set to nil and panics;
  called on the model as it was before the dismissal it would have given No.
\<close>

theorem Update_escape_emits_function:
  "Update deleteBox (KeyMsg (keyOf KeyEsc))
     = Inr (deleteBox\<lparr>box := None\<rparr>,
            Some (ButtonFunc (buttonToReturn (deleteBox\<lparr>box := None\<rparr>))))
   \<and> \<not> IsActive (deleteBox\<lparr>box := None\<rparr>)
   \<and> Some (ButtonFunc (buttonToReturn (deleteBox\<lparr>box := None\<rparr>))) \<noteq> Some (ButtonValue MB_NO)
   \<and> buttonToReturn (deleteBox\<lparr>box := None\<rparr>) () = Inl NilPointer
   \<and> buttonToReturn deleteBox () = Inr MB_NO"
  by (simp add: Update_def deleteBox_def keyOf_def buttonToReturn_def slices_Contains_def
      IsActive_def MB_defs)

subsection \<open>New\<close>

lemma render_known: "b \<in> set displayOrder \<Longrightarrow> \<exists>s. render L b sty sel = Inr s"
  by (auto simp: displayOrder_def render_def buttonText_def MB_defs strings_Index_def
      index_at_def len_def Let_def)

lemma renderEach_known:
  "set bs \<subseteq> set displayOrder \<Longrightarrow> \<exists>ss. renderEach L sty sel i bs = Inr ss"
proof (induction bs arbitrary: i)
  case Nil
  then show ?case by simp
next
  case (Cons b bs)
  from Cons.prems obtain s where s: "render L b sty (i = sel) = Inr s"
    using render_known [of b L sty "i = sel"] by auto
  from Cons.prems Cons.IH [of "i + 1"] obtain ss
    where "renderEach L sty sel (i + 1) bs = Inr ss"
    by auto
  with s show ?case by simp
qed

lemma New_box:
  "\<exists>m' bx. New L m msg boxType opts = Inr m' \<and> box m' = Some bx
      \<and> buttons bx = filter (\<lambda>b. boxType AND b \<noteq> 0) displayOrder
      \<and> selectedButton bx = initialSelection (filter (\<lambda>b. boxType AND b \<noteq> 0) displayOrder)"
proof -
  let ?bs = "filter (\<lambda>b. boxType AND b \<noteq> 0) displayOrder"
  have sub: "set ?bs \<subseteq> set displayOrder" by auto
  obtain ss where ss: "renderEach L
      (case style (fold (\<lambda>opt os. opt os) opts options_zero) of
         None \<Rightarrow> DefaultStyles | Some s \<Rightarrow> s)
      (initialSelection ?bs) 0 ?bs = Inr ss"
    using renderEach_known [OF sub] by blast
  show ?thesis
    using ss
    by (simp add: New_def Let_def renderButtons_def initialSelection_def)
qed

lemma initialSelection_one: "length bs = 1 \<Longrightarrow> initialSelection bs = 0"
  by (simp add: initialSelection_def len_def)

lemma initialSelection_cancel:
  "length bs \<noteq> 1 \<Longrightarrow> MB_CANCEL \<in> set bs \<Longrightarrow>
     index_at bs (initialSelection bs) = Inr MB_CANCEL
     \<and> initialSelection bs = slices_Index bs MB_CANCEL"
  using slices_Index_found [of MB_CANCEL bs] slices_Index_neg_iff [of bs MB_CANCEL]
  by (simp add: initialSelection_def len_def index_at_def Let_def)

lemma initialSelection_no:
  "length bs \<noteq> 1 \<Longrightarrow> MB_CANCEL \<notin> set bs \<Longrightarrow> MB_NO \<in> set bs \<Longrightarrow>
     index_at bs (initialSelection bs) = Inr MB_NO
     \<and> initialSelection bs = slices_Index bs MB_NO"
  using slices_Index_found [of MB_NO bs] slices_Index_neg_iff [of bs MB_CANCEL]
    slices_Index_neg_iff [of bs MB_NO]
  by (simp add: initialSelection_def len_def index_at_def Let_def)

lemma initialSelection_none:
  "MB_CANCEL \<notin> set bs \<Longrightarrow> MB_NO \<notin> set bs \<Longrightarrow> initialSelection bs = 0"
  using slices_Index_neg_iff [of bs MB_CANCEL] slices_Index_neg_iff [of bs MB_NO]
  by (simp add: initialSelection_def Let_def)

lemma initialSelection_range:
  "bs \<noteq> [] \<Longrightarrow> 0 \<le> initialSelection bs \<and> initialSelection bs < len bs"
  using slices_Index_found [of MB_CANCEL bs] slices_Index_found [of MB_NO bs]
    slices_Index_neg_iff [of bs MB_CANCEL] slices_Index_neg_iff [of bs MB_NO]
  by (auto simp: initialSelection_def Let_def len_def)

text \<open>
  What \<^verbatim>\<open>New\<close> establishes and the theorems on \<^verbatim>\<open>Update\<close> assume: the buttons are
  among the five known ones, and the selection is an index of the list whenever the
  list is not empty.
\<close>

lemma New_establishes_invariant:
  "\<exists>m' bx. New L m msg boxType opts = Inr m' \<and> box m' = Some bx
     \<and> set (buttons bx) \<subseteq> {MB_OK, MB_YES, MB_NO, MB_ALL, MB_CANCEL}
     \<and> (buttons bx \<noteq> [] \<longrightarrow>
          0 \<le> selectedButton bx \<and> selectedButton bx < len (buttons bx))"
proof -
  from New_box [of L m msg boxType opts] obtain m' bx where
    n: "New L m msg boxType opts = Inr m'" and b: "box m' = Some bx"
    and bs: "buttons bx = filter (\<lambda>b. boxType AND b \<noteq> 0) displayOrder"
    and sel: "selectedButton bx = initialSelection (buttons bx)"
    by auto
  from bs have "set (buttons bx) \<subseteq> set displayOrder" by auto
  then have k: "set (buttons bx) \<subseteq> {MB_OK, MB_YES, MB_NO, MB_ALL, MB_CANCEL}"
    by (simp add: displayOrder_def)
  from sel initialSelection_range [of "buttons bx"]
  have "buttons bx \<noteq> [] \<longrightarrow>
          0 \<le> selectedButton bx \<and> selectedButton bx < len (buttons bx)"
    by simp
  with n b k show ?thesis by blast
qed

text \<open>
  Claim C4. Every call of \<^verbatim>\<open>New\<close> returns an active box. Its button list holds exactly
  the buttons whose bit is set in \<^verbatim>\<open>boxType\<close>, each once, in the display order Ok, Yes, No,
  All, Cancel. The initial \<^verbatim>\<open>selectedButton\<close> is 0 when there is exactly one button;
  otherwise it is the index of Cancel if Cancel is present, else the index of No if No
  is present, else 0.
\<close>

theorem New_buttons_and_selection:
  "\<exists>m' bx. New L m msg boxType opts = Inr m' \<and> IsActive m' \<and> box m' = Some bx
     \<and> buttons bx = filter (\<lambda>b. boxType AND b \<noteq> 0) [MB_OK, MB_YES, MB_NO, MB_ALL, MB_CANCEL]
     \<and> distinct (buttons bx)
     \<and> (length (buttons bx) = 1 \<longrightarrow> selectedButton bx = 0)
     \<and> (length (buttons bx) \<noteq> 1 \<and> MB_CANCEL \<in> set (buttons bx) \<longrightarrow>
          index_at (buttons bx) (selectedButton bx) = Inr MB_CANCEL)
     \<and> (length (buttons bx) \<noteq> 1 \<and> MB_CANCEL \<notin> set (buttons bx) \<and> MB_NO \<in> set (buttons bx) \<longrightarrow>
          index_at (buttons bx) (selectedButton bx) = Inr MB_NO)
     \<and> (length (buttons bx) \<noteq> 1 \<and> MB_CANCEL \<notin> set (buttons bx) \<and> MB_NO \<notin> set (buttons bx) \<longrightarrow>
          selectedButton bx = 0)"
proof -
  from New_box [of L m msg boxType opts] obtain m' bx where
    n: "New L m msg boxType opts = Inr m'" and b: "box m' = Some bx"
    and bs: "buttons bx = filter (\<lambda>b. boxType AND b \<noteq> 0) displayOrder"
    and sel: "selectedButton bx = initialSelection (buttons bx)"
    by auto
  have d: "distinct (buttons bx)"
    unfolding bs by (rule distinct_filter) (simp add: displayOrder_def MB_defs)
  from b have a: "IsActive m'" by (simp add: IsActive_def)
  have "New L m msg boxType opts = Inr m' \<and> IsActive m' \<and> box m' = Some bx
     \<and> buttons bx = filter (\<lambda>b. boxType AND b \<noteq> 0) displayOrder
     \<and> distinct (buttons bx)
     \<and> (length (buttons bx) = 1 \<longrightarrow> selectedButton bx = 0)
     \<and> (length (buttons bx) \<noteq> 1 \<and> MB_CANCEL \<in> set (buttons bx) \<longrightarrow>
          index_at (buttons bx) (selectedButton bx) = Inr MB_CANCEL)
     \<and> (length (buttons bx) \<noteq> 1 \<and> MB_CANCEL \<notin> set (buttons bx) \<and> MB_NO \<in> set (buttons bx) \<longrightarrow>
          index_at (buttons bx) (selectedButton bx) = Inr MB_NO)
     \<and> (length (buttons bx) \<noteq> 1 \<and> MB_CANCEL \<notin> set (buttons bx) \<and> MB_NO \<notin> set (buttons bx) \<longrightarrow>
          selectedButton bx = 0)"
    using n a b bs d initialSelection_one [of "buttons bx"]
      initialSelection_cancel [of "buttons bx"] initialSelection_no [of "buttons bx"]
      initialSelection_none [of "buttons bx"]
    unfolding sel by blast
  then show ?thesis unfolding displayOrder_def by blast
qed


theorem New_buttons_and_selection_witness:
  "\<exists>m' bx. New plainLibs noBox ''Delete selected?'' YES_NO_ALL [WithPosition 3 6] = Inr m'
     \<and> IsActive m' \<and> box m' = Some bx
     \<and> buttons bx = [MB_YES, MB_NO, MB_ALL]
     \<and> length (buttons bx) \<noteq> 1 \<and> MB_CANCEL \<notin> set (buttons bx) \<and> MB_NO \<in> set (buttons bx)
     \<and> selectedButton bx = 1"
proof -
  from New_buttons_and_selection
    [of plainLibs noBox "''Delete selected?''" YES_NO_ALL "[WithPosition 3 6]"]
  obtain m' bx where
    n: "New plainLibs noBox ''Delete selected?'' YES_NO_ALL [WithPosition 3 6] = Inr m'"
    and a: "IsActive m'" and b: "box m' = Some bx"
    and bs: "buttons bx
       = filter (\<lambda>b. YES_NO_ALL AND b \<noteq> 0) [MB_OK, MB_YES, MB_NO, MB_ALL, MB_CANCEL]"
    and no: "length (buttons bx) \<noteq> 1 \<and> MB_CANCEL \<notin> set (buttons bx) \<and> MB_NO \<in> set (buttons bx)
       \<longrightarrow> index_at (buttons bx) (selectedButton bx) = Inr MB_NO"
    by blast
  from bs have bs': "buttons bx = [MB_YES, MB_NO, MB_ALL]"
    by (simp add: YES_NO_ALL_def MB_defs)
  from no bs' have "index_at [MB_YES, MB_NO, MB_ALL] (selectedButton bx) = Inr MB_NO"
    by (simp add: MB_defs)
  then have "0 \<le> selectedButton bx \<and> selectedButton bx < 3
      \<and> [MB_YES, MB_NO, MB_ALL] ! nat (selectedButton bx) = MB_NO"
    by (simp add: index_at_def len_def split: if_splits)
  then have "selectedButton bx = 0 \<or> selectedButton bx = 1 \<or> selectedButton bx = 2"
    by presburger
  with \<open>0 \<le> selectedButton bx \<and> selectedButton bx < 3
      \<and> [MB_YES, MB_NO, MB_ALL] ! nat (selectedButton bx) = MB_NO\<close>
  have s: "selectedButton bx = 1"
    by (auto simp: MB_defs)
  from n a b bs' s show ?thesis by (simp add: MB_defs)
qed


subsection \<open>The empty button list and the range of the selection\<close>

lemma no_known_bit:
  assumes "boxType AND (MB_OK OR MB_CANCEL OR MB_YES OR MB_NO OR MB_ALL) = (0::int)"
  shows "filter (\<lambda>b. boxType AND b \<noteq> 0) displayOrder = []"
proof -
  have z: "boxType AND 62 = 0" using assms by (simp add: MB_defs)
  have "boxType AND b = 0" if "62 AND b = b" for b :: int
  proof -
    have "boxType AND b = boxType AND (62 AND b)" using that by simp
    also have "\<dots> = (boxType AND 62) AND b" by (simp add: and.assoc)
    also have "\<dots> = 0" using z by simp
    finally show ?thesis .
  qed
  from this [of 2] this [of 4] this [of 8] this [of 16] this [of 32]
  show ?thesis by (simp add: displayOrder_def MB_defs)
qed

lemma New_no_known_bit:
  assumes "boxType AND (MB_OK OR MB_CANCEL OR MB_YES OR MB_NO OR MB_ALL) = 0"
  shows "\<exists>m' bx. New L m msg boxType opts = Inr m' \<and> IsActive m' \<and> box m' = Some bx
           \<and> buttons bx = [] \<and> selectedButton bx = 0"
proof -
  from New_box [of L m msg boxType opts] obtain m' bx where
    n: "New L m msg boxType opts = Inr m'" and b: "box m' = Some bx"
    and bs: "buttons bx = filter (\<lambda>b. boxType AND b \<noteq> 0) displayOrder"
    and sel: "selectedButton bx = initialSelection (buttons bx)"
    by auto
  from bs no_known_bit [OF assms] have e: "buttons bx = []" by simp
  with sel have "selectedButton bx = 0" by (simp add: initialSelection_def len_def)
  with n b e show ?thesis by (auto simp: IsActive_def)
qed

lemma go_rem_zero: "go_rem a 0 = Inl DivideByZero"
  by (simp add: go_rem_def)

lemma go_rem_range:
  "0 \<le> a \<Longrightarrow> 0 < b \<Longrightarrow> \<exists>r. go_rem a b = Inr r \<and> 0 \<le> r \<and> r < b \<and> r = a mod b"
  by (cases "a = 0") (auto simp: go_rem_def)

lemma tab_empty:
  assumes "box m = Some bx" and "buttons bx = []"
    and "keyType k \<in> {KeyCtrlI, KeyRight, KeyShiftTab, KeyLeft}"
  shows "Update m (KeyMsg k) = Inl DivideByZero"
  using assms by (auto simp: Update_def forwardTab_def reverseTab_def go_rem_def len_def)

lemma confirm_empty:
  assumes "box m = Some bx" and "buttons bx = []"
    and "keyType k \<in> {KeySpace, KeyEnter}"
  shows "Update m (KeyMsg k) = Inl IndexOutOfRange"
  using assms by (auto simp: Update_def confirm_def index_at_def len_def)

lemma confirm_in_range:
  assumes "box m = Some bx"
    and "0 \<le> selectedButton bx" and "selectedButton bx < len (buttons bx)"
    and "keyType k \<in> {KeySpace, KeyEnter}"
  shows "\<exists>r. Update m (KeyMsg k) = Inr r"
  using assms by (auto simp: Update_def confirm_def index_at_def)

lemma tab_nonempty:
  assumes "box m = Some bx" and "buttons bx \<noteq> []"
    and "keyType k \<in> {KeyCtrlI, KeyRight, KeyShiftTab, KeyLeft}"
  shows "\<exists>r. Update m (KeyMsg k) = Inr r"
  using assms by (auto simp: Update_def forwardTab_def reverseTab_def go_rem_def len_def)


lemma keyBinding_known: "b \<in> set displayOrder \<Longrightarrow> \<exists>ks. keyBinding b = Inr ks"
  by (auto simp: displayOrder_def keyBinding_def highlightChar_def buttonText_def MB_defs
      strings_Index_def index_at_def len_def Let_def)

lemma matchBound_known:
  "set bs \<subseteq> set displayOrder \<Longrightarrow> \<exists>r. matchBound k bs = Inr r"
proof (induction bs)
  case Nil
  then show ?case by simp
next
  case (Cons b bs)
  from Cons.prems obtain ks where "keyBinding b = Inr ks"
    using keyBinding_known [of b] by auto
  moreover from Cons obtain r where "matchBound k bs = Inr r" by auto
  ultimately show ?case by simp
qed

lemma forwardTab_range:
  assumes "buttons bx \<noteq> []" and "0 \<le> selectedButton bx"
    and "selectedButton bx < len (buttons bx)"
  shows "\<exists>s. forwardTab m bx = Inr (m\<lparr>box := Some (bx\<lparr>selectedButton := s\<rparr>)\<rparr>, None)
           \<and> 0 \<le> s \<and> s < len (buttons bx)"
proof -
  from assms have "0 \<le> selectedButton bx + 1" "0 < len (buttons bx)"
    by (simp_all add: len_def)
  from go_rem_range [OF this] show ?thesis
    by (auto simp: forwardTab_def)
qed

lemma reverseTab_range:
  assumes "buttons bx \<noteq> []" and "0 \<le> selectedButton bx"
    and "selectedButton bx < len (buttons bx)"
  shows "\<exists>s. reverseTab m bx = Inr (m\<lparr>box := Some (bx\<lparr>selectedButton := s\<rparr>)\<rparr>, None)
           \<and> 0 \<le> s \<and> s < len (buttons bx)"
proof -
  from assms have "0 \<le> len (buttons bx) + selectedButton bx - 1" "0 < len (buttons bx)"
    by (simp_all add: len_def)
  from go_rem_range [OF this] show ?thesis
    by (auto simp: reverseTab_def)
qed

lemma Update_keeps_selection:
  assumes b: "box m = Some bx" and ne: "buttons bx \<noteq> []"
    and lo: "0 \<le> selectedButton bx" and hi: "selectedButton bx < len (buttons bx)"
    and u: "Update m msg = Inr (m', c)"
  shows "box m' = None
     \<or> (\<exists>bx'. box m' = Some bx' \<and> buttons bx' = buttons bx
            \<and> 0 \<le> selectedButton bx' \<and> selectedButton bx' < len (buttons bx'))"
proof (cases msg)
  case OtherMsg
  with b lo hi u show ?thesis by (auto simp: Update_def)
next
  case (KeyMsg k)
  from forwardTab_range [OF ne lo hi, of m] obtain s1 where
    f: "forwardTab m bx = Inr (m\<lparr>box := Some (bx\<lparr>selectedButton := s1\<rparr>)\<rparr>, None)"
    "0 \<le> s1" "s1 < len (buttons bx)" by blast
  from reverseTab_range [OF ne lo hi, of m] obtain s2 where
    r: "reverseTab m bx = Inr (m\<lparr>box := Some (bx\<lparr>selectedButton := s2\<rparr>)\<rparr>, None)"
    "0 \<le> s2" "s2 < len (buttons bx)" by blast
  show ?thesis
  proof (cases "keyType k")
    case KeyEsc
    with KeyMsg b u show ?thesis by (auto simp: Update_def Let_def)
  next
    case KeyCtrlI
    with KeyMsg b u f show ?thesis by (auto simp: Update_def)
  next
    case KeyRight
    with KeyMsg b u f show ?thesis by (auto simp: Update_def)
  next
    case KeyShiftTab
    with KeyMsg b u r show ?thesis by (auto simp: Update_def)
  next
    case KeyLeft
    with KeyMsg b u r show ?thesis by (auto simp: Update_def)
  next
    case KeySpace
    with KeyMsg b u show ?thesis
      by (auto simp: Update_def confirm_def split: sum.splits)
  next
    case KeyEnter
    with KeyMsg b u show ?thesis
      by (auto simp: Update_def confirm_def split: sum.splits)
  next
    case KeyRunes
    with KeyMsg b u lo hi show ?thesis
      by (auto simp: Update_def split: sum.splits option.splits)
  next
    case (KeyOther n)
    with KeyMsg b u lo hi show ?thesis
      by (auto simp: Update_def split: sum.splits option.splits)
  qed
qed

lemma Update_total_known:
  assumes b: "box m = Some bx" and ne: "buttons bx \<noteq> []"
    and lo: "0 \<le> selectedButton bx" and hi: "selectedButton bx < len (buttons bx)"
    and kn: "set (buttons bx) \<subseteq> set displayOrder"
  shows "\<exists>r. Update m msg = Inr r"
proof (cases msg)
  case OtherMsg
  with b show ?thesis by (simp add: Update_def)
next
  case (KeyMsg k)
  from forwardTab_range [OF ne lo hi, of m] obtain r1 where f: "forwardTab m bx = Inr r1"
    by blast
  from reverseTab_range [OF ne lo hi, of m] obtain r2 where r: "reverseTab m bx = Inr r2"
    by blast
  from lo hi have c: "\<exists>r3. confirm m bx = Inr r3"
    by (simp add: confirm_def index_at_def)
  from matchBound_known [OF kn, of k] obtain r4 where mb: "matchBound k (buttons bx) = Inr r4"
    by blast
  show ?thesis
    using KeyMsg b f r c mb
    by (cases "keyType k") (auto simp: Update_def Let_def split: option.splits)
qed


text \<open>
  Claim C10. (1) \<^verbatim>\<open>New\<close> with a \<^verbatim>\<open>boxType\<close> that shares no bit with Ok, Cancel, Yes, No
  and All returns an active box whose button list is empty. (2) On a box with an empty
  button list the tab, right, shift-tab and left keys make \<^verbatim>\<open>Update\<close> take a remainder
  by zero, and the space and enter keys make it index the empty list. (3) On a box
  whose selection is an index of its list whenever the list is not empty, these six
  keys make \<^verbatim>\<open>Update\<close> return exactly when the button list is not empty. (4) On a box
  with a non-empty list and a selection in \<open>[0, len(buttons))\<close>, whatever \<^verbatim>\<open>Update\<close>
  returns either has no box or has the same buttons and a selection in that range;
  and if the buttons are among the five known ones, as \<^verbatim>\<open>New\<close> builds them, \<^verbatim>\<open>Update\<close>
  returns for every message.
\<close>

theorem empty_button_list_and_selection_range:
  "(boxType AND (MB_OK OR MB_CANCEL OR MB_YES OR MB_NO OR MB_ALL) = 0 \<longrightarrow>
      (\<exists>m' bx'. New L m0 msg0 boxType opts = Inr m' \<and> IsActive m' \<and> box m' = Some bx'
          \<and> buttons bx' = []))
   \<and> (box me = Some be \<and> buttons be = [] \<longrightarrow>
        (keyType k1 \<in> {KeyCtrlI, KeyRight, KeyShiftTab, KeyLeft} \<longrightarrow>
           Update me (KeyMsg k1) = Inl DivideByZero)
      \<and> (keyType k2 \<in> {KeySpace, KeyEnter} \<longrightarrow>
           Update me (KeyMsg k2) = Inl IndexOutOfRange))
   \<and> (box m = Some bx
        \<and> (buttons bx \<noteq> [] \<longrightarrow> 0 \<le> selectedButton bx \<and> selectedButton bx < len (buttons bx))
        \<and> keyType k3 \<in> {KeyCtrlI, KeyRight, KeyShiftTab, KeyLeft, KeySpace, KeyEnter} \<longrightarrow>
        ((\<exists>r. Update m (KeyMsg k3) = Inr r) \<longleftrightarrow> buttons bx \<noteq> []))
   \<and> (box m = Some bx \<and> buttons bx \<noteq> []
        \<and> 0 \<le> selectedButton bx \<and> selectedButton bx < len (buttons bx) \<longrightarrow>
        (\<forall>msg m' c. Update m msg = Inr (m', c) \<longrightarrow>
           box m' = None
           \<or> (\<exists>bx'. box m' = Some bx' \<and> buttons bx' = buttons bx
                  \<and> 0 \<le> selectedButton bx' \<and> selectedButton bx' < len (buttons bx')))
      \<and> (set (buttons bx) \<subseteq> {MB_OK, MB_YES, MB_NO, MB_ALL, MB_CANCEL} \<longrightarrow>
           (\<forall>msg. \<exists>r. Update m msg = Inr r)))"
proof (intro conjI impI allI)
  assume "boxType AND (MB_OK OR MB_CANCEL OR MB_YES OR MB_NO OR MB_ALL) = 0"
  from New_no_known_bit [OF this, of L m0 msg0 opts]
  show "\<exists>m' bx'. New L m0 msg0 boxType opts = Inr m' \<and> IsActive m' \<and> box m' = Some bx'
      \<and> buttons bx' = []"
    by blast
next
  assume "box me = Some be \<and> buttons be = []"
    and "keyType k1 \<in> {KeyCtrlI, KeyRight, KeyShiftTab, KeyLeft}"
  then show "Update me (KeyMsg k1) = Inl DivideByZero"
    using tab_empty [of me be k1] by blast
next
  assume "box me = Some be \<and> buttons be = []" and "keyType k2 \<in> {KeySpace, KeyEnter}"
  then show "Update me (KeyMsg k2) = Inl IndexOutOfRange"
    using confirm_empty [of me be k2] by blast
next
  assume a: "box m = Some bx
        \<and> (buttons bx \<noteq> [] \<longrightarrow> 0 \<le> selectedButton bx \<and> selectedButton bx < len (buttons bx))
        \<and> keyType k3 \<in> {KeyCtrlI, KeyRight, KeyShiftTab, KeyLeft, KeySpace, KeyEnter}"
  show "(\<exists>r. Update m (KeyMsg k3) = Inr r) \<longleftrightarrow> buttons bx \<noteq> []"
  proof (cases "buttons bx = []")
    case True
    with a tab_empty [of m bx k3] confirm_empty [of m bx k3] show ?thesis by auto
  next
    case False
    with a have "0 \<le> selectedButton bx" "selectedButton bx < len (buttons bx)" by simp_all
    with a False tab_nonempty [of m bx k3] confirm_in_range [of m bx k3] show ?thesis
      by auto
  qed
next
  fix msg m' c
  assume "box m = Some bx \<and> buttons bx \<noteq> []
        \<and> 0 \<le> selectedButton bx \<and> selectedButton bx < len (buttons bx)"
    and "Update m msg = Inr (m', c)"
  then show "box m' = None
           \<or> (\<exists>bx'. box m' = Some bx' \<and> buttons bx' = buttons bx
                  \<and> 0 \<le> selectedButton bx' \<and> selectedButton bx' < len (buttons bx'))"
    using Update_keeps_selection [of m bx msg m' c] by blast
next
  fix msg
  assume a: "box m = Some bx \<and> buttons bx \<noteq> []
        \<and> 0 \<le> selectedButton bx \<and> selectedButton bx < len (buttons bx)"
    and "set (buttons bx) \<subseteq> {MB_OK, MB_YES, MB_NO, MB_ALL, MB_CANCEL}"
  then have "set (buttons bx) \<subseteq> set displayOrder" by (simp add: displayOrder_def)
  with a show "\<exists>r. Update m msg = Inr r"
    using Update_total_known [of m bx msg] by blast
qed


theorem empty_button_list_and_selection_range_witness:
  "(1::int) AND (MB_OK OR MB_CANCEL OR MB_YES OR MB_NO OR MB_ALL) = 0
   \<and> (\<exists>m' bx'. New plainLibs noBox ''Nothing to choose'' 1 [] = Inr m' \<and> IsActive m'
          \<and> box m' = Some bx' \<and> buttons bx' = [])
   \<and> Update emptyBox (KeyMsg (keyOf KeyCtrlI)) = Inl DivideByZero
   \<and> Update emptyBox (KeyMsg (keyOf KeyEnter)) = Inl IndexOutOfRange
   \<and> (\<exists>r. Update deleteBox (KeyMsg (keyOf KeyLeft)) = Inr r)
   \<and> (\<exists>m' bx'. Update deleteBox (KeyMsg (keyOf KeyRight)) = Inr (m', None)
          \<and> box m' = Some bx' \<and> buttons bx' = [MB_YES, MB_NO, MB_ALL]
          \<and> 0 \<le> selectedButton bx' \<and> selectedButton bx' < 3)
   \<and> (\<forall>msg. \<exists>r. Update deleteBox msg = Inr r)"
proof -
  let ?be = "\<lparr>message = ''Nothing to choose'', buttons = [], selectedButton = 0\<rparr>"
  let ?bx = "\<lparr>message = ''Delete selected?'', buttons = [MB_YES, MB_NO, MB_ALL],
               selectedButton = 1\<rparr>"
  let ?m' = "deleteBox\<lparr>box := Some (?bx\<lparr>selectedButton := 2\<rparr>)\<rparr>"
  have h1: "(1::int) AND (MB_OK OR MB_CANCEL OR MB_YES OR MB_NO OR MB_ALL) = 0"
    by (simp add: MB_defs)
  have h2: "box emptyBox = Some ?be \<and> buttons ?be = []" by (simp add: emptyBox_def)
  have h3: "box deleteBox = Some ?bx" by (simp add: deleteBox_def)
  have h4: "buttons ?bx \<noteq> [] \<and> 0 \<le> selectedButton ?bx
      \<and> selectedButton ?bx < len (buttons ?bx)" by (simp add: len_def)
  have h5: "set (buttons ?bx) \<subseteq> {MB_OK, MB_YES, MB_NO, MB_ALL, MB_CANCEL}" by simp
  have h6: "Update deleteBox (KeyMsg (keyOf KeyRight)) = Inr (?m', None)"
    by (simp add: Update_def deleteBox_def keyOf_def forwardTab_def go_rem_def len_def)
  have k: "keyType (keyOf KeyCtrlI) \<in> {KeyCtrlI, KeyRight, KeyShiftTab, KeyLeft}"
    "keyType (keyOf KeyEnter) \<in> {KeySpace, KeyEnter}"
    "keyType (keyOf KeyLeft)
       \<in> {KeyCtrlI, KeyRight, KeyShiftTab, KeyLeft, KeySpace, KeyEnter}"
    by (simp_all add: keyOf_def)
  have t: "(\<exists>m' bx'. New plainLibs noBox ''Nothing to choose'' 1 [] = Inr m' \<and> IsActive m'
          \<and> box m' = Some bx' \<and> buttons bx' = [])
   \<and> Update emptyBox (KeyMsg (keyOf KeyCtrlI)) = Inl DivideByZero
   \<and> Update emptyBox (KeyMsg (keyOf KeyEnter)) = Inl IndexOutOfRange
   \<and> (\<exists>r. Update deleteBox (KeyMsg (keyOf KeyLeft)) = Inr r)
   \<and> (\<forall>msg m' c. Update deleteBox msg = Inr (m', c) \<longrightarrow>
           box m' = None
           \<or> (\<exists>bx'. box m' = Some bx' \<and> buttons bx' = [MB_YES, MB_NO, MB_ALL]
                  \<and> 0 \<le> selectedButton bx' \<and> selectedButton bx' < 3))
   \<and> (\<forall>msg. \<exists>r. Update deleteBox msg = Inr r)"
    using empty_button_list_and_selection_range
      [where boxType = 1 and L = plainLibs and ?m0.0 = noBox
         and ?msg0.0 = "''Nothing to choose''"
         and opts = "[]" and me = emptyBox and be = ?be and ?k1.0 = "keyOf KeyCtrlI"
         and ?k2.0 = "keyOf KeyEnter" and m = deleteBox and bx = ?bx
         and ?k3.0 = "keyOf KeyLeft"]
      h1 h2 h3 h4 h5 k
    by (simp add: len_def keyOf_def cong: conj_cong)
  then have "box ?m' = None
      \<or> (\<exists>bx'. box ?m' = Some bx' \<and> buttons bx' = [MB_YES, MB_NO, MB_ALL]
             \<and> 0 \<le> selectedButton bx' \<and> selectedButton bx' < 3)"
    using h6 by blast
  then have "\<exists>bx'. box ?m' = Some bx' \<and> buttons bx' = [MB_YES, MB_NO, MB_ALL]
             \<and> 0 \<le> selectedButton bx' \<and> selectedButton bx' < 3"
    by simp
  with h6 have "\<exists>m' bx'. Update deleteBox (KeyMsg (keyOf KeyRight)) = Inr (m', None)
          \<and> box m' = Some bx' \<and> buttons bx' = [MB_YES, MB_NO, MB_ALL]
          \<and> 0 \<le> selectedButton bx' \<and> selectedButton bx' < 3"
    by blast
  with h1 t show ?thesis by blast
qed

section \<open>Properties of the table\<close>

subsection \<open>Width of the row-number column\<close>

lemma decimalDigits_pos: "1 \<le> decimalDigits n"
  by (subst decimalDigits.simps) simp

lemma decimalDigits_bounds:
  "1 \<le> n \<Longrightarrow> 10 ^ (decimalDigits n - 1) \<le> n \<and> n < 10 ^ decimalDigits n"
proof (induction n rule: decimalDigits.induct)
  case (1 n)
  show ?case
  proof (cases "n < 10")
    case True
    with 1 show ?thesis by (subst (1 2) decimalDigits.simps) simp
  next
    case False
    then have q: "1 \<le> n div 10" by simp
    from 1(1) [OF False q] have ih: "10 ^ (decimalDigits (n div 10) - 1) \<le> n div 10"
      "n div 10 < 10 ^ decimalDigits (n div 10)" by simp_all
    have d: "decimalDigits n = 1 + decimalDigits (n div 10)"
      using False by (subst decimalDigits.simps) simp
    have p: "1 \<le> decimalDigits (n div 10)" by (rule decimalDigits_pos)
    from p have e: "(10::nat) ^ decimalDigits (n div 10) = 10 * 10 ^ (decimalDigits (n div 10) - 1)"
      by (cases "decimalDigits (n div 10)") simp_all
    from ih(1) have "10 * 10 ^ (decimalDigits (n div 10) - 1) \<le> 10 * (n div 10)" by simp
    also have "\<dots> \<le> n" by simp
    finally have lo: "10 ^ (decimalDigits n - 1) \<le> n" using d e by simp
    from ih(2) have "n div 10 + 1 \<le> 10 ^ decimalDigits (n div 10)" by simp
    then have "10 * (n div 10 + 1) \<le> 10 * 10 ^ decimalDigits (n div 10)" by simp
    moreover have "n < 10 * (n div 10 + 1)" by presburger
    ultimately have hi: "n < 10 ^ decimalDigits n" using d by simp
    from lo hi show ?thesis by simp
  qed
qed

lemma decimalDigits_unique:
  assumes "1 \<le> d" and "10 ^ (d - 1) \<le> n" and "n < 10 ^ d"
  shows "decimalDigits n = d"
proof -
  from assms(2) have n: "1 \<le> n"
    by (metis One_nat_def Suc_leI le_trans zero_less_numeral zero_less_power)
  from decimalDigits_bounds [OF n] have b: "10 ^ (decimalDigits n - 1) \<le> n"
    "n < 10 ^ decimalDigits n" by simp_all
  from assms(2) b(2) have "(10::nat) ^ (d - 1) < 10 ^ decimalDigits n"
    by (rule le_less_trans)
  then have 1: "d - 1 < decimalDigits n" by simp
  from b(1) assms(3) have "(10::nat) ^ (decimalDigits n - 1) < 10 ^ d"
    by (rule le_less_trans)
  then have 2: "decimalDigits n - 1 < d" by simp
  from 1 2 assms(1) decimalDigits_pos [of n] show ?thesis by simp
qed

text \<open>
  Claim C3, as amended. For every row count \<open>n \<ge> 1\<close>, \<^verbatim>\<open>rowNumberColWidth\<close> is the number
  of decimal digits of \<open>n\<close> itself: the width \<open>w\<close> is at least 1 and
  \<open>10^(w-1) \<le> n < 10^w\<close>. In particular it is 1 for \<open>n\<close> in [1,9], 2 in [10,99] and 3
  in [100,999], and it grows by exactly one from \<open>10^k - 1\<close> rows to \<open>10^k\<close> rows.
\<close>

theorem rowNumberColWidth_digits_of_count:
  assumes "1 \<le> length rs"
  shows "1 \<le> rowNumberColWidth rs
    \<and> 10 ^ nat (rowNumberColWidth rs - 1) \<le> length rs
    \<and> length rs < 10 ^ nat (rowNumberColWidth rs)
    \<and> (length rs \<le> 9 \<longrightarrow> rowNumberColWidth rs = 1)
    \<and> (10 \<le> length rs \<and> length rs \<le> 99 \<longrightarrow> rowNumberColWidth rs = 2)
    \<and> (100 \<le> length rs \<and> length rs \<le> 999 \<longrightarrow> rowNumberColWidth rs = 3)
    \<and> (\<forall>rs' k. 1 \<le> k \<and> length rs = 10 ^ k - 1 \<and> length rs' = 10 ^ k \<longrightarrow>
          rowNumberColWidth rs = int k \<and> rowNumberColWidth rs' = rowNumberColWidth rs + 1)"
proof -
  let ?n = "length rs"
  from decimalDigits_bounds [OF assms] decimalDigits_pos [of ?n]
  have b: "1 \<le> decimalDigits ?n" "10 ^ (decimalDigits ?n - 1) \<le> ?n" "?n < 10 ^ decimalDigits ?n"
    by simp_all
  have w: "nat (rowNumberColWidth rs) = decimalDigits ?n"
    "nat (rowNumberColWidth rs - 1) = decimalDigits ?n - 1"
    by (simp_all add: rowNumberColWidth_def nat_diff_distrib')
  have r1: "?n \<le> 9 \<longrightarrow> rowNumberColWidth rs = 1"
    using assms decimalDigits_unique [of 1 ?n] by (simp add: rowNumberColWidth_def)
  have r2: "10 \<le> ?n \<and> ?n \<le> 99 \<longrightarrow> rowNumberColWidth rs = 2"
    using decimalDigits_unique [of 2 ?n] by (simp add: rowNumberColWidth_def)
  have r3: "100 \<le> ?n \<and> ?n \<le> 999 \<longrightarrow> rowNumberColWidth rs = 3"
    using decimalDigits_unique [of 3 ?n] by (simp add: rowNumberColWidth_def)
  have st: "rowNumberColWidth rs = int k \<and> rowNumberColWidth rs' = rowNumberColWidth rs + 1"
    if k: "1 \<le> k \<and> length rs = 10 ^ k - 1 \<and> length rs' = 10 ^ k" for rs' :: "Row list" and k
  proof -
    from k obtain j where j: "k = Suc j" by (cases k) auto
    have "(10::nat) ^ j < 10 ^ Suc j" by simp
    then have "(10::nat) ^ j \<le> 10 ^ Suc j - 1" by linarith
    with k j have "decimalDigits (length rs) = k"
      by (intro decimalDigits_unique) simp_all
    moreover from k have "decimalDigits (length rs') = k + 1"
      by (intro decimalDigits_unique) simp_all
    ultimately show ?thesis by (simp add: rowNumberColWidth_def)
  qed
  from st have st': "\<forall>rs' k. 1 \<le> k \<and> length rs = 10 ^ k - 1 \<and> length rs' = 10 ^ k \<longrightarrow>
          rowNumberColWidth rs = int k \<and> rowNumberColWidth rs' = rowNumberColWidth rs + 1"
    by blast
  have p: "1 \<le> rowNumberColWidth rs" using b(1) by (simp add: rowNumberColWidth_def)
  from b(2,3) w have q: "10 ^ nat (rowNumberColWidth rs - 1) \<le> length rs"
    "length rs < 10 ^ nat (rowNumberColWidth rs)" by simp_all
  from p q r1 r2 r3 st' show ?thesis by blast
qed


theorem rowNumberColWidth_digits_of_count_witness:
  "1 \<le> length (replicate 8 (plainRow []))
   \<and> rowNumberColWidth (replicate 8 (plainRow [])) = 1
   \<and> rowNumberColWidth (replicate 34 (plainRow [])) = 2
   \<and> rowNumberColWidth (replicate 100 (plainRow [])) = 3
   \<and> rowNumberColWidth (replicate 9 (plainRow [])) = 1
   \<and> rowNumberColWidth (replicate 10 (plainRow [])) = 2"
proof -
  let ?r = "plainRow []"
  have a: "rowNumberColWidth (replicate 8 ?r) = 1"
    using rowNumberColWidth_digits_of_count [of "replicate 8 ?r"] by simp
  have b: "rowNumberColWidth (replicate 34 ?r) = 2"
    using rowNumberColWidth_digits_of_count [of "replicate 34 ?r"] by simp
  have c: "rowNumberColWidth (replicate 100 ?r) = 3"
    using rowNumberColWidth_digits_of_count [of "replicate 100 ?r"] by simp
  have "\<forall>rs' k. 1 \<le> k \<and> length (replicate 9 ?r) = 10 ^ k - 1 \<and> length rs' = 10 ^ k \<longrightarrow>
          rowNumberColWidth (replicate 9 ?r) = int k
          \<and> rowNumberColWidth rs' = rowNumberColWidth (replicate 9 ?r) + 1"
  proof -
    have "1 \<le> length (replicate 9 ?r)" by simp
    from rowNumberColWidth_digits_of_count [OF this] show ?thesis by blast
  qed
  then have "1 \<le> (1::nat) \<and> length (replicate 9 ?r) = 10 ^ 1 - 1
        \<and> length (replicate 10 ?r) = 10 ^ 1 \<longrightarrow>
          rowNumberColWidth (replicate 9 ?r) = int 1
          \<and> rowNumberColWidth (replicate 10 ?r) = rowNumberColWidth (replicate 9 ?r) + 1"
    by blast
  then have d: "rowNumberColWidth (replicate 9 ?r) = 1
      \<and> rowNumberColWidth (replicate 10 ?r) = 2"
    by simp
  from a b c d show ?thesis by simp
qed

text \<open>
  Claim C3, as stated, says the width is the number of decimal digits of \<open>n - 1\<close>. It
  fails at 100 rows, the case \<^verbatim>\<open>TestPad\<close> checks: the width is 3, and 99 has two
  digits.
\<close>

theorem rowNumberColWidth_not_digits_of_predecessor:
  "rowNumberColWidth (replicate 100 (plainRow [])) = 3
   \<and> (10::nat) ^ (2 - 1) \<le> 100 - 1 \<and> (100::nat) - 1 < 10 ^ 2
   \<and> decimalDigits (100 - 1) = 2
   \<and> rowNumberColWidth (replicate 100 (plainRow [])) \<noteq> int (decimalDigits (100 - 1))"
  by (simp add: rowNumberColWidth_def decimalDigits.simps)


subsection \<open>Removing rows\<close>

lemma deleteAt_length: "i < length xs \<Longrightarrow> length (deleteAt xs i) = length xs - 1"
  by (simp add: deleteAt_def)







text \<open>
  Claim C7. On a table whose cursor is on one of its rows (so the table is not empty),
  \<^verbatim>\<open>RemoveSelectedRow\<close> removes the row at the cursor. When rows remain it reports true
  and the new cursor is the minimum of the previous cursor and the new row count
  minus one; when the removal empties the table it reports false.
\<close>

theorem RemoveSelectedRow_result:
  assumes "0 \<le> cursor m" and "cursor m < len (rows m)"
    and "RemoveSelectedRow m = (m', remain)"
  shows "rows m' = take (nat (cursor m)) (rows m) @ drop (nat (cursor m) + 1) (rows m)
    \<and> length (rows m') = length (rows m) - 1
    \<and> (rows m' \<noteq> [] \<longrightarrow> remain \<and> cursor m' = min (cursor m) (len (rows m') - 1))
    \<and> (rows m' = [] \<longrightarrow> \<not> remain)"
proof -
  from assms(1,2) have r: "nat (cursor m) < length (rows m)" by (auto simp: len_def)
  from assms have e: "rows m' = deleteAt (rows m) (nat (cursor m))"
    by (auto simp: RemoveSelectedRow_def Let_def split: if_splits)
  from e r have l: "length (rows m') = length (rows m) - 1" by (simp add: deleteAt_length)
  from assms e have c: "rows m' \<noteq> [] \<longrightarrow> remain \<and> cursor m' = min (cursor m) (len (rows m') - 1)"
    by (auto simp: RemoveSelectedRow_def Let_def split: if_splits)
  from assms e have n: "rows m' = [] \<longrightarrow> \<not> remain"
    by (auto simp: RemoveSelectedRow_def Let_def split: if_splits)
  from e l c n show ?thesis by (simp add: deleteAt_def)
qed


theorem RemoveSelectedRow_result_witness:
  "0 \<le> cursor (packets\<lparr>cursor := 3\<rparr>)
   \<and> cursor (packets\<lparr>cursor := 3\<rparr>) < len (rows (packets\<lparr>cursor := 3\<rparr>))
   \<and> snd (RemoveSelectedRow (packets\<lparr>cursor := 3\<rparr>)) = True
   \<and> length (rows (fst (RemoveSelectedRow (packets\<lparr>cursor := 3\<rparr>)))) = 3
   \<and> cursor (fst (RemoveSelectedRow (packets\<lparr>cursor := 3\<rparr>))) = 2
   \<and> snd (RemoveSelectedRow oneRow) = False
   \<and> rows (fst (RemoveSelectedRow oneRow)) = []"
proof -
  let ?m = "packets\<lparr>cursor := 3\<rparr>"
  have h: "0 \<le> cursor ?m" "cursor ?m < len (rows ?m)"
    by (simp_all add: packets_def newTable_def len_def)
  have "RemoveSelectedRow ?m = (fst (RemoveSelectedRow ?m), snd (RemoveSelectedRow ?m))"
    by simp
  from RemoveSelectedRow_result [OF h this]
  have a: "snd (RemoveSelectedRow ?m) = True
      \<and> length (rows (fst (RemoveSelectedRow ?m))) = 3
      \<and> cursor (fst (RemoveSelectedRow ?m)) = 2"
    by (simp add: packets_def newTable_def len_def)
  have g: "0 \<le> cursor oneRow" "cursor oneRow < len (rows oneRow)"
    by (simp_all add: oneRow_def newTable_def len_def)
  have "RemoveSelectedRow oneRow
      = (fst (RemoveSelectedRow oneRow), snd (RemoveSelectedRow oneRow))"
    by simp
  from RemoveSelectedRow_result [OF g this]
  have b: "snd (RemoveSelectedRow oneRow) = False \<and> rows (fst (RemoveSelectedRow oneRow)) = []"
    by (simp add: oneRow_def newTable_def)
  from h a b show ?thesis by simp
qed

subsection \<open>Find\<close>

lemma strings_Contains_iff: "strings_Contains s sub \<longleftrightarrow> (\<exists>u v. s = u @ sub @ v)"
proof (induction s)
  case Nil
  then show ?case by auto
next
  case (Cons c cs)
  note IH = Cons.IH
  have p: "take (length sub) (c # cs) = sub \<longleftrightarrow> (\<exists>v. c # cs = sub @ v)"
    by (metis append_eq_conv_conj append_take_drop_id)
  show ?case
  proof
    assume "strings_Contains (c # cs) sub"
    then consider "take (length sub) (c # cs) = sub" | "strings_Contains cs sub" by auto
    then show "\<exists>u v. c # cs = u @ sub @ v"
    proof cases
      case 1
      with p obtain v where "c # cs = [] @ sub @ v" by auto
      then show ?thesis by blast
    next
      case 2
      with IH obtain u v where "cs = u @ sub @ v" by auto
      then have "c # cs = (c # u) @ sub @ v" by simp
      then show ?thesis by blast
    qed
  next
    assume "\<exists>u v. c # cs = u @ sub @ v"
    then obtain u v where e: "c # cs = u @ sub @ v" by auto
    show "strings_Contains (c # cs) sub"
    proof (cases u)
      case Nil
      with e have "\<exists>v. c # cs = sub @ v" by auto
      with p have "take (length sub) (c # cs) = sub" by simp
      then show ?thesis by simp
    next
      case (Cons a u')
      with e have "cs = u' @ sub @ v" by simp
      with IH have "strings_Contains cs sub" by blast
      then show ?thesis by simp
    qed
  qed
qed

lemma rowMatches_iff:
  "rowMatches term r \<longleftrightarrow> (\<exists>c\<in>set (Data r). \<exists>u v. c = u @ term @ v)"
  by (simp add: rowMatches_def list_ex_iff strings_Contains_iff)

lemma scanRows_Some:
  "scanRows term f i rs = Some j \<Longrightarrow>
     i \<le> j \<and> j < i + len rs \<and> f < j \<and> rowMatches term (rs ! nat (j - i))
     \<and> (\<forall>k. i \<le> k \<and> k < j \<and> f < k \<longrightarrow> \<not> rowMatches term (rs ! nat (k - i)))"
proof (induction rs arbitrary: i)
  case Nil
  then show ?case by simp
next
  case (Cons r rs)
  show ?case
  proof (cases "f < i \<and> rowMatches term r")
    case True
    with Cons.prems have "j = i" by simp
    with True show ?thesis by (simp add: len_def)
  next
    case False
    with Cons.prems have s: "scanRows term f (i + 1) rs = Some j" by simp
    from Cons.IH [OF s] have ih: "i + 1 \<le> j" "j < i + 1 + len rs" "f < j"
      "rowMatches term (rs ! nat (j - (i + 1)))"
      "\<forall>k. i + 1 \<le> k \<and> k < j \<and> f < k \<longrightarrow> \<not> rowMatches term (rs ! nat (k - (i + 1)))"
      by simp_all
    from ih(1) have n: "nat (j - i) = Suc (nat (j - (i + 1)))" by simp
    have "\<not> rowMatches term ((r # rs) ! nat (k - i))" if k: "i \<le> k \<and> k < j \<and> f < k" for k
    proof (cases "k = i")
      case True
      with k False show ?thesis by simp
    next
      case False
      with k have "i + 1 \<le> k" by simp
      moreover from this have "nat (k - i) = Suc (nat (k - (i + 1)))" by simp
      ultimately show ?thesis using ih(5) k by simp
    qed
    with ih n show ?thesis by (simp add: len_def)
  qed
qed

lemma scanRows_None:
  "scanRows term f i rs = None \<Longrightarrow>
     (\<forall>k. i \<le> k \<and> k < i + len rs \<and> f < k \<longrightarrow> \<not> rowMatches term (rs ! nat (k - i)))"
proof (induction rs arbitrary: i)
  case Nil
  then show ?case by (auto simp: len_def)
next
  case (Cons r rs)
  from Cons.prems have f: "\<not> (f < i \<and> rowMatches term r)"
    and s: "scanRows term f (i + 1) rs = None"
    by (simp_all split: if_splits)
  from Cons.IH [OF s]
  have ih: "\<forall>k. i + 1 \<le> k \<and> k < i + 1 + len rs \<and> f < k \<longrightarrow> \<not> rowMatches term (rs ! nat (k - (i + 1)))" .
  have "\<not> rowMatches term ((r # rs) ! nat (k - i))"
    if k: "i \<le> k \<and> k < i + len (r # rs) \<and> f < k" for k
  proof (cases "k = i")
    case True
    with k f show ?thesis by simp
  next
    case False
    with k have "i + 1 \<le> k" by simp
    moreover from this have "nat (k - i) = Suc (nat (k - (i + 1)))" by simp
    ultimately show ?thesis using ih k by (simp add: len_def)
  qed
  then show ?case by blast
qed


text \<open>
  Claim C6. \<^verbatim>\<open>Find(term, fromIndex)\<close> depends only on the rows at indices strictly
  after \<open>fromIndex\<close>. It reports true exactly when one of them has a cell that
  contains \<open>term\<close> as a contiguous, case-sensitive substring; then the cursor is the
  index of the first such row and nothing else of the table changes. When there is no
  such row it reports false and returns the table unchanged.
\<close>

theorem Find_first_match_after:
  assumes "Find m term fromIndex = (m', found)"
  shows "(found \<longrightarrow>
            m' = m\<lparr>cursor := cursor m'\<rparr>
          \<and> 0 \<le> cursor m' \<and> fromIndex < cursor m' \<and> cursor m' < len (rows m)
          \<and> (\<exists>c\<in>set (Data (rows m ! nat (cursor m'))). \<exists>u v. c = u @ term @ v)
          \<and> (\<forall>j. 0 \<le> j \<and> fromIndex < j \<and> j < cursor m' \<longrightarrow>
                \<not> (\<exists>c\<in>set (Data (rows m ! nat j)). \<exists>u v. c = u @ term @ v)))
    \<and> (\<not> found \<longrightarrow>
            m' = m
          \<and> (\<forall>j. 0 \<le> j \<and> fromIndex < j \<and> j < len (rows m) \<longrightarrow>
                \<not> (\<exists>c\<in>set (Data (rows m ! nat j)). \<exists>u v. c = u @ term @ v)))"
proof (cases "scanRows term fromIndex 0 (rows m)")
  case None
  with assms have r: "m' = m" "\<not> found" by (simp_all add: Find_def)
  from scanRows_None [OF None] have
    "\<forall>j. 0 \<le> j \<and> fromIndex < j \<and> j < len (rows m) \<longrightarrow> \<not> rowMatches term (rows m ! nat j)"
    by simp
  with r show ?thesis by (simp add: rowMatches_iff)
next
  case (Some i)
  with assms have r: "m' = m\<lparr>cursor := i\<rparr>" "found" by (simp_all add: Find_def)
  from scanRows_Some [OF Some] have s: "0 \<le> i" "i < len (rows m)" "fromIndex < i"
    "rowMatches term (rows m ! nat i)"
    "\<forall>j. 0 \<le> j \<and> fromIndex < j \<and> j < i \<longrightarrow> \<not> rowMatches term (rows m ! nat j)"
    by simp_all
  from r have c: "cursor m' = i" "m' = m\<lparr>cursor := cursor m'\<rparr>" by simp_all
  from s c r(2) show ?thesis by (simp add: rowMatches_iff)
qed

theorem Find_first_match_after_witness:
  "Find biscuits ''Yes'' 0 = (biscuits\<lparr>cursor := 2\<rparr>, True)
   \<and> Find biscuits ''Yes'' 2 = (biscuits\<lparr>cursor := 3\<rparr>, True)
   \<and> Find biscuits ''Yes'' 3 = (biscuits, False)
   \<and> (\<exists>c\<in>set (Data (rows biscuits ! 2)). \<exists>u v. c = u @ ''Yes'' @ v)
   \<and> \<not> (\<exists>c\<in>set (Data (rows biscuits ! 1)). \<exists>u v. c = u @ ''Yes'' @ v)"
proof -
  have a: "Find biscuits ''Yes'' 0 = (biscuits\<lparr>cursor := 2\<rparr>, True)"
    by (simp add: Find_def biscuits_def newTable_def plainRow_def rowMatches_def)
  have b: "Find biscuits ''Yes'' 2 = (biscuits\<lparr>cursor := 3\<rparr>, True)"
    by (simp add: Find_def biscuits_def newTable_def plainRow_def rowMatches_def)
  have c: "Find biscuits ''Yes'' 3 = (biscuits, False)"
    by (simp add: Find_def biscuits_def newTable_def plainRow_def rowMatches_def)
  from Find_first_match_after [OF a]
  have d: "(\<exists>c\<in>set (Data (rows biscuits ! 2)). \<exists>u v. c = u @ ''Yes'' @ v)"
    "\<forall>j. 0 \<le> j \<and> 0 < j \<and> j < 2 \<longrightarrow>
        \<not> (\<exists>c\<in>set (Data (rows biscuits ! nat j)). \<exists>u v. c = u @ ''Yes'' @ v)"
    by simp_all
  from d(2) have "0 \<le> (1::int) \<and> 0 < (1::int) \<and> (1::int) < 2 \<longrightarrow>
        \<not> (\<exists>c\<in>set (Data (rows biscuits ! nat 1)). \<exists>u v. c = u @ ''Yes'' @ v)"
    by blast
  then have e: "\<not> (\<exists>c\<in>set (Data (rows biscuits ! 1)). \<exists>u v. c = u @ ''Yes'' @ v)"
    by simp
  from a b c d(1) e show ?thesis by blast
qed

subsection \<open>SortBy\<close>

text \<open>
  Claim C5. On the table of \<^verbatim>\<open>TestSortBy\<close>, sorting column 0 ascending as strings
  gives the rows abcdEfgh, plmnPOiu, qwerTYui, zxcvBNmj; sorting column 1 ascending as
  numbers gives zxcvBNmj, abcdEfgh, qwerTYui, plmnPOiu; sorting column 2 descending as
  numbers gives zxcvBNmj, qwerTYui, abcdEfgh, plmnPOiu.
\<close>

theorem SortBy_test_table:
  "SortBy sortTable 0 SortAscending SortString
     = Inr (sortTable\<lparr>rows := [row_abcd, row_plmn, row_qwer, row_zxcv]\<rparr>)
   \<and> SortBy sortTable 1 SortAscending SortNumeric
     = Inr (sortTable\<lparr>rows := [row_zxcv, row_abcd, row_qwer, row_plmn]\<rparr>)
   \<and> SortBy sortTable 2 SortDescending SortNumeric
     = Inr (sortTable\<lparr>rows := [row_zxcv, row_qwer, row_abcd, row_plmn]\<rparr>)"
  by (simp add: SortBy_def sortTable_def newTable_def row_abcd_def row_plmn_def row_qwer_def
      row_zxcv_def plainRow_def len_def cell_def sortStable_def parseFloat_def isDigit_def
      digitsValue_def Let_def)

end
